theory Spec2Isabelle
  imports Main "HOL-Library.Word" "HOL-Library.Multiset"
begin

unbundle bit_operations_syntax

section \<open>The ninja tortoise: data model\<close>

text \<open>
  The embedding follows package \<open>consensus\<close> (the tortoise file of the repository).
  Package \<open>mesh\<close> is declared elsewhere; the conversions \<open>uint32(bids[i])\<close>,
  \<open>uint32(i)\<close> and \<open>mesh.LayerID(ni.LayerSize*uint32(i))\<close> treat block and layer
  identifiers as unsigned 32-bit integers, and so does the model. Go's \<open>int\<close> is
  taken at its 64-bit width.
\<close>

type_synonym BlockID = "32 word"
type_synonym LayerID = "32 word"
type_synonym goint = "64 word"

text \<open>\<open>type vec [2]int\<close>; a \<open>*vec\<close> is an address of the heap, \<open>None\<close> is nil.\<close>

type_synonym vec = "goint \<times> goint"
type_synonym addr = nat
type_synonym vecptr = "addr option"

text \<open>The constants of the tortoise.\<close>

definition K :: "32 word" where "K = 5"
definition Window :: LayerID where "Window = 100"
definition LocalThreshold :: "32 word" where "LocalThreshold = 1"
definition GlobalThreshold :: "32 word" where "GlobalThreshold = 1"

text \<open>
  \<open>votingPattern\<close>: the hash of the block ids and the embedded layer id. Every
  \<open>*votingPattern\<close> of the source points to a cell that is never written again, so
  such a pointer is modelled by \<open>votingPattern option\<close> (\<open>None\<close> is nil).
\<close>

record votingPattern =
  id_vp :: "32 word"
  LayerID :: LayerID

definition Layer_vp :: "votingPattern \<Rightarrow> LayerID" where
  "Layer_vp vp = LayerID vp"

text \<open>
  \<open>mesh.Block\<close>, with the members the tortoise reads: \<open>Id\<close> (and \<open>ID()\<close>),
  the layer returned by \<open>Layer()\<close>, the slice of explicit vote edges and the slice
  of view edges.
\<close>

record Block =
  Id :: BlockID
  LayerIndex :: LayerID
  BlockVotes :: "BlockID list"
  ViewEdges :: "BlockID list"

text \<open>
  \<open>ninjaBlock\<close> embeds the block; its own \<open>BlockVotes\<close> map shadows the slice of
  the embedded block. A nil map and an empty map read alike.
\<close>

record ninjaBlock =
  Block :: Block
  BlockVotes_nb :: "LayerID \<rightharpoonup> votingPattern option"

definition ID :: "ninjaBlock \<Rightarrow> BlockID" where
  "ID nb = Id (Block nb)"

definition Layer :: "ninjaBlock \<Rightarrow> LayerID" where
  "Layer nb = LayerIndex (Block nb)"

text \<open>
  The engine state. A map of maps is a partial function to partial functions; an absent
  inner map is the nil map of Go (reads find nothing, a write panics). \<open>pBase\<close> is
  never assigned nil by the tortoise, so it is modelled by its pointee.
\<close>

record ninjaTortoise =
  LayerSize :: "32 word"
  pBase :: votingPattern
  blocks :: "BlockID \<rightharpoonup> ninjaBlock"
  tEffective :: "BlockID \<rightharpoonup> votingPattern option"
  tCorrect :: "BlockID \<rightharpoonup> (votingPattern \<rightharpoonup> vecptr)"
  layerBlocks :: "LayerID \<rightharpoonup> BlockID list"
  tExplicit :: "LayerID \<rightharpoonup> (BlockID \<rightharpoonup> votingPattern option)"
  tGood :: "LayerID \<rightharpoonup> votingPattern"
  tSupport :: "votingPattern \<rightharpoonup> goint"
  tPattern :: "votingPattern \<rightharpoonup> BlockID list"
  tVote :: "votingPattern \<rightharpoonup> (BlockID \<rightharpoonup> vecptr)"
  tTally :: "votingPattern \<rightharpoonup> (BlockID \<rightharpoonup> vecptr)"
  tComplete :: "votingPattern set"
  tEffectiveToBlocks :: "votingPattern \<rightharpoonup> BlockID list"
  tPatSupport :: "votingPattern \<rightharpoonup> (LayerID \<rightharpoonup> votingPattern option)"

text \<open>
  The machine: the engine together with the heap of \<open>vec\<close> cells. The package
  variables \<open>Support\<close>, \<open>Against\<close> and \<open>Abstain\<close> are the addresses 0, 1 and 2;
  \<open>nextv\<close> is the next free address. Go leaves the order in which \<open>range\<close>
  walks a map open; \<open>ranges\<close> counts the map walks made so far, so that the order
  of each walk can be given from outside.
\<close>

record machine = ninjaTortoise +
  vecs :: "addr \<Rightarrow> vec"
  nextv :: addr
  ranges :: nat

definition Support :: addr where "Support = 0"
definition Against :: addr where "Against = 1"
definition Abstain :: addr where "Abstain = 2"

text \<open>How a call ends when it does not return.\<close>

datatype panic =
  UnknownBlock
  | NilDereference
  | NilMapAssign
  | LoopNoExit

type_synonym 'a M = "machine \<Rightarrow> (panic + 'a) \<times> machine"

definition ret :: "'a \<Rightarrow> 'a M" where
  "ret x s = (Inr x, s)"

definition raise :: "panic \<Rightarrow> 'a M" where
  "raise e s = (Inl e, s)"

definition bnd :: "'a M \<Rightarrow> ('a \<Rightarrow> 'b M) \<Rightarrow> 'b M" where
  "bnd m f s = (case m s of (Inl e, s') \<Rightarrow> (Inl e, s') | (Inr x, s') \<Rightarrow> f x s')"

definition gets :: "(machine \<Rightarrow> 'a) \<Rightarrow> 'a M" where
  "gets f s = (Inr (f s), s)"

definition modify :: "(machine \<Rightarrow> machine) \<Rightarrow> unit M" where
  "modify f s = (Inr (), f s)"

text \<open>Reading through a pointer: nil panics.\<close>

definition deref :: "'a option \<Rightarrow> 'a M" where
  "deref p = (case p of None \<Rightarrow> raise NilDereference | Some x \<Rightarrow> ret x)"

text \<open>A \<open>range\<close> loop over a slice, left when the body panics.\<close>

fun forM :: "'a list \<Rightarrow> ('a \<Rightarrow> unit M) \<Rightarrow> unit M" where
  "forM [] f s = (Inr (), s)"
| "forM (x # xs) f s = (case f x s of (Inl e, s') \<Rightarrow> (Inl e, s') | (Inr u, s') \<Rightarrow> forM xs f s')"

text \<open>The same loop with local variables carried from one round to the next.\<close>

fun foldM :: "('a \<Rightarrow> 'b \<Rightarrow> 'b M) \<Rightarrow> 'a list \<Rightarrow> 'b \<Rightarrow> 'b M" where
  "foldM f [] acc s = (Inr acc, s)"
| "foldM f (x # xs) acc s =
     (case f x acc s of (Inl e, s') \<Rightarrow> (Inl e, s') | (Inr acc', s') \<Rightarrow> foldM f xs acc' s')"

text \<open>
  The order of one \<open>range\<close> over a map whose keys are \<open>keys\<close>: the walk number
  \<open>ranges\<close> of the run, as \<open>order\<close> gives it.
\<close>

definition rangeOrder :: "(nat \<Rightarrow> 'k list \<Rightarrow> 'k list) \<Rightarrow> 'k list \<Rightarrow> 'k list M" where
  "rangeOrder order keys s = (Inr (order (ranges s) keys), s\<lparr>ranges := Suc (ranges s)\<rparr>)"

text \<open>
  The layers of \<open>for j := a; j < b; j++\<close>, and of \<open>for j := a; j <= b; j++\<close>; on an
  unsigned counter the second loop has no exit when \<open>b\<close> is the largest value.
\<close>

definition layersBelow :: "LayerID \<Rightarrow> LayerID \<Rightarrow> LayerID list" where
  "layersBelow a b = map word_of_nat [unat a ..< unat b]"

definition layersUpTo :: "LayerID \<Rightarrow> LayerID \<Rightarrow> LayerID list M" where
  "layersUpTo a b = (if b = - 1 then raise LoopNoExit else ret (map word_of_nat [unat a ..< Suc (unat b)]))"

section \<open>Vote algebra\<close>

definition newVec :: "vec \<Rightarrow> vecptr M" where
  "newVec v s = (Inr (Some (nextv s)), s\<lparr>vecs := (vecs s)(nextv s := v), nextv := Suc (nextv s)\<rparr>)"

text \<open>\<open>Add\<close>: a nil operand returns the other pointer, otherwise a fresh cell.\<close>

definition Add :: "vecptr \<Rightarrow> vecptr \<Rightarrow> vecptr M" where
  "Add a v s =
     (case a of None \<Rightarrow> (Inr v, s)
      | Some pa \<Rightarrow>
          (case v of None \<Rightarrow> (Inr a, s)
           | Some pv \<Rightarrow>
               newVec (fst (vecs s pa) + fst (vecs s pv), snd (vecs s pa) + snd (vecs s pv)) s))"

text \<open>\<open>Negate\<close>: a fresh zero vector for nil, otherwise the receiver's cell is overwritten.\<close>

definition Negate :: "vecptr \<Rightarrow> vecptr M" where
  "Negate a s =
     (case a of None \<Rightarrow> newVec (0, 0) s
      | Some pa \<Rightarrow>
          (Inr (Some pa),
           s\<lparr>vecs := (vecs s)(pa := (fst (vecs s pa) * (- 1), snd (vecs s pa) * (- 1)))\<rparr>))"

text \<open>\<open>Multiplay\<close>: the receiver's cell is overwritten; a nil receiver is dereferenced.\<close>

definition Multiplay :: "vecptr \<Rightarrow> goint \<Rightarrow> vecptr M" where
  "Multiplay a x s =
     (case a of None \<Rightarrow> (Inl NilDereference, s)
      | Some pa \<Rightarrow>
          (Inr (Some pa),
           s\<lparr>vecs := (vecs s)(pa := (fst (vecs s pa) * x, snd (vecs s pa) * x))\<rparr>))"

section \<open>Pattern identity\<close>

text \<open>
  Modelled from the spec: \<open>common.Uint32ToBytes\<close> is declared outside the tortoise
  file; the four bytes of the value, most significant first.
\<close>

definition Uint32ToBytes :: "32 word \<Rightarrow> 8 word list" where
  "Uint32ToBytes x =
     [ucast (drop_bit 24 x), ucast (drop_bit 16 x), ucast (drop_bit 8 x), ucast x]"

text \<open>
  \<open>hash/fnv\<close>: \<open>fnv.New32()\<close> is the 32-bit FNV-1 hash of the Go library. Its
  \<open>Write\<close> multiplies by the prime and then xors the byte in.
\<close>

definition offset32 :: "32 word" where "offset32 = 2166136261"
definition prime32 :: "32 word" where "prime32 = 16777619"

definition fnv32_Write :: "32 word \<Rightarrow> 8 word list \<Rightarrow> 32 word" where
  "fnv32_Write h data = fold (\<lambda>c hash. (hash * prime32) XOR ucast c) data h"

text \<open>
  \<open>getId\<close> sorts the slice it is given in place (\<open>sortBids\<close> is what the caller's
  slice holds afterwards) and hashes the sorted ids.
\<close>

definition sortBids :: "BlockID list \<Rightarrow> BlockID list" where
  "sortBids bids = sort bids"

definition getId :: "BlockID list \<Rightarrow> 32 word" where
  "getId bids = fold (\<lambda>b h. fnv32_Write h (Uint32ToBytes (ucast b))) (sortBids bids) offset32"

text \<open>
  The digest as the specification words it, for comparison: FNV-1a xors the byte in and
  then multiplies by the prime.
\<close>

definition fnv32a_Write :: "32 word \<Rightarrow> 8 word list \<Rightarrow> 32 word" where
  "fnv32a_Write h data = fold (\<lambda>c hash. (hash XOR ucast c) * prime32) data h"

definition patternId_spec :: "BlockID list \<Rightarrow> 32 word" where
  "patternId_spec ids = fold (\<lambda>b h. fnv32a_Write h (Uint32ToBytes b)) (sort ids) offset32"

section \<open>Storing a block\<close>

text \<open>
  The local map \<open>patterns\<close> of \<open>processBlock\<close>, kept as the list of its entries in the
  order the keys were first written. \<open>appendVote\<close> is
  \<open>patterns[l] = append(patterns[l], bid)\<close>.
\<close>

fun appendVote :: "LayerID \<Rightarrow> BlockID \<Rightarrow> (LayerID \<times> BlockID list) list \<Rightarrow> (LayerID \<times> BlockID list) list" where
  "appendVote l bid [] = [(l, [bid])]"
| "appendVote l bid ((k, v) # ps) =
     (if k = l then (k, v @ [bid]) # ps else (k, v) # appendVote l bid ps)"

text \<open>The first loop: every vote edge must name a stored block.\<close>

fun groupVotes :: "(BlockID \<rightharpoonup> ninjaBlock) \<Rightarrow> BlockID list \<Rightarrow> (LayerID \<times> BlockID list) list
    \<Rightarrow> panic + (LayerID \<times> BlockID list) list" where
  "groupVotes blks [] patterns = Inr patterns"
| "groupVotes blks (bid # bids) patterns =
     (case blks bid of
        None \<Rightarrow> Inl UnknownBlock
      | Some b \<Rightarrow> groupVotes blks bids (appendVote (Layer b) bid patterns))"

text \<open>
  One round of \<open>for layerId, v := range patterns\<close>. The locals carried along are the
  \<open>BlockVotes\<close> map of the new \<open>ninjaBlock\<close>, made anew in every round, and
  \<open>effective\<close>. \<open>getId\<close> has sorted \<open>v\<close> before it is stored in \<open>tPattern\<close>.
\<close>

definition patternRound :: "(LayerID \<times> BlockID list) list \<Rightarrow> LayerID
    \<Rightarrow> (LayerID \<rightharpoonup> votingPattern option) \<times> votingPattern option
    \<Rightarrow> ((LayerID \<rightharpoonup> votingPattern option) \<times> votingPattern option) M" where
  "patternRound patterns layerId acc =
     (case map_of patterns layerId of
        None \<Rightarrow> ret acc
      | Some v \<Rightarrow>
          (let vp = \<lparr>id_vp = getId v, LayerID = layerId\<rparr> in
           bnd (modify (\<lambda>s. s\<lparr>tPattern := (tPattern s)(vp \<mapsto> sortBids v)\<rparr>)) (\<lambda>_.
           ret (Map.empty(layerId \<mapsto> Some vp),
                (case snd acc of
                   None \<Rightarrow> Some vp
                 | Some e \<Rightarrow> if Layer_vp e < layerId then Some vp else Some e)))))"

definition processBlock :: "(nat \<Rightarrow> LayerID list \<Rightarrow> LayerID list) \<Rightarrow> Block \<Rightarrow> ninjaBlock M" where
  "processBlock lo b =
     bnd (gets blocks) (\<lambda>blks.
     case groupVotes blks (BlockVotes b) [] of
       Inl e \<Rightarrow> raise e
     | Inr patterns \<Rightarrow>
         bnd (rangeOrder lo (map fst patterns)) (\<lambda>order.
         bnd (foldM (patternRound patterns) order (Map.empty, None)) (\<lambda>(votes, effective).
         bnd (modify (\<lambda>s. s\<lparr>tEffective := (tEffective s)(Id b \<mapsto> effective)\<rparr>)) (\<lambda>_.
         bnd (case effective of
                None \<Rightarrow> ret ()
              | Some e \<Rightarrow>
                  modify (\<lambda>s. s\<lparr>tEffectiveToBlocks := (tEffectiveToBlocks s)
                    (e \<mapsto> (case tEffectiveToBlocks s e of None \<Rightarrow> [] | Some v \<Rightarrow> v) @ [Id b])\<rparr>)) (\<lambda>_.
         let nb = \<lparr>Block = b, BlockVotes_nb = votes\<rparr> in
         bnd (modify (\<lambda>s. s\<lparr>blocks := (blocks s)(Id b \<mapsto> nb)\<rparr>)) (\<lambda>_.
         ret nb))))))"

section \<open>The view of a set of blocks\<close>

text \<open>
  The inner loop of \<open>forBlockInView\<close> over the view edges of the block just visited:
  a child not yet in \<open>set\<close> is entered there and pushed to the back.
\<close>

fun pushChildren :: "BlockID list \<Rightarrow> BlockID list \<Rightarrow> BlockID set \<Rightarrow> BlockID list \<times> BlockID set" where
  "pushChildren [] stack seen = (stack, seen)"
| "pushChildren (c # cs) stack seen =
     (if c \<in> seen then pushChildren cs stack seen
      else pushChildren cs (stack @ [c]) (insert c seen))"

definition childrenOf :: "LayerID \<Rightarrow> ninjaBlock \<Rightarrow> BlockID list" where
  "childrenOf layer block = (if layer < Layer block then ViewEdges (Block block) else [])"

lemma pushChildren_measure:
  "length (fst (pushChildren cs stack seen)) + card (- snd (pushChildren cs stack seen))
     = length stack + card (- seen)"
proof (induction cs arbitrary: stack seen)
  case Nil
  then show ?case by simp
next
  case (Cons c cs)
  show ?case
  proof (cases "c \<in> seen")
    case True
    then show ?thesis using Cons.IH by simp
  next
    case False
    have fin: "finite (- seen)" by simp
    have "- insert c seen = (- seen) - {c}" by auto
    moreover have "c \<in> - seen" using False by simp
    ultimately have "Suc (card (- insert c seen)) = card (- seen)"
      using fin card_Suc_Diff1 [of "- seen" c] by simp
    then show ?thesis using False Cons.IH [of "stack @ [c]" "insert c seen"] by simp
  qed
qed

text \<open>
  The main loop. An id without a stored block is reported to the log only, and the nil
  block is then dereferenced. The visitor \<open>foo\<close> carries the variables it has
  captured as \<open>loc\<close>; \<open>lc\<close> is \<open>layerCounter\<close>, an absent key of which reads 0.
\<close>

function bfsLoop :: "LayerID \<Rightarrow> (ninjaBlock \<Rightarrow> 'l \<Rightarrow> 'l M) \<Rightarrow> BlockID list \<Rightarrow> BlockID set
    \<Rightarrow> (LayerID \<Rightarrow> goint) \<Rightarrow> 'l \<Rightarrow> ((LayerID \<Rightarrow> goint) \<times> 'l) M" where
  "bfsLoop layer foo [] seen lc loc s = (Inr (lc, loc), s)"
| "bfsLoop layer foo (a # stack) seen lc loc s =
     (case blocks s a of
        None \<Rightarrow> (Inl NilDereference, s)
      | Some block \<Rightarrow>
          (case foo block loc s of
             (Inl e, s') \<Rightarrow> (Inl e, s')
           | (Inr loc', s') \<Rightarrow>
               bfsLoop layer foo
                 (fst (pushChildren (childrenOf layer block) stack seen))
                 (snd (pushChildren (childrenOf layer block) stack seen))
                 (lc(Layer block := lc (Layer block) + 1)) loc' s'))"
  by pat_completeness auto
termination
  by (relation "measure (\<lambda>(layer, foo, stack, seen, lc, loc, s). length stack + card (- seen))")
     (simp_all add: pushChildren_measure)

definition forBlockInView :: "BlockID list \<Rightarrow> LayerID \<Rightarrow> (ninjaBlock \<Rightarrow> 'l \<Rightarrow> 'l M) \<Rightarrow> 'l
    \<Rightarrow> ((LayerID \<Rightarrow> goint) \<times> 'l) M" where
  "forBlockInView blks layer foo loc = bfsLoop layer foo (rev blks) {} (\<lambda>_. 0) loc"

section \<open>Reading and writing the tables\<close>

text \<open>\<open>m[a][b]\<close> with the comma-ok form: an absent inner map finds nothing.\<close>

definition lookup2 :: "('a \<rightharpoonup> ('b \<rightharpoonup> 'c)) \<Rightarrow> 'a \<Rightarrow> 'b \<Rightarrow> 'c option" where
  "lookup2 m a b = (case m a of None \<Rightarrow> None | Some inner \<Rightarrow> inner b)"

text \<open>The single-value read of a map of pointers: an absent key reads nil.\<close>

definition nilIfAbsent :: "'a option option \<Rightarrow> 'a option" where
  "nilIfAbsent r = (case r of None \<Rightarrow> None | Some p \<Rightarrow> p)"

text \<open>A nil slice for an absent key.\<close>

definition sliceOf :: "'a list option \<Rightarrow> 'a list" where
  "sliceOf r = (case r of None \<Rightarrow> [] | Some v \<Rightarrow> v)"

text \<open>\<open>ni.tTally[p][b] = v\<close> and \<open>ni.tVote[p][b] = v\<close>: a write to a nil map panics.\<close>

definition assignTally :: "votingPattern \<Rightarrow> BlockID \<Rightarrow> vecptr \<Rightarrow> unit M" where
  "assignTally p b v s =
     (case tTally s p of
        None \<Rightarrow> (Inl NilMapAssign, s)
      | Some inner \<Rightarrow> (Inr (), s\<lparr>tTally := (tTally s)(p \<mapsto> inner(b \<mapsto> v))\<rparr>))"

definition assignVote :: "votingPattern \<Rightarrow> BlockID \<Rightarrow> vecptr \<Rightarrow> unit M" where
  "assignVote p b v s =
     (case tVote s p of
        None \<Rightarrow> (Inl NilMapAssign, s)
      | Some inner \<Rightarrow> (Inr (), s\<lparr>tVote := (tVote s)(p \<mapsto> inner(b \<mapsto> v))\<rparr>))"

section \<open>Global opinion\<close>

text \<open>The error value that \<open>globalOpinion\<close> returns (it is not a panic).\<close>

datatype error = NotInView BlockID votingPattern

text \<open>
  \<open>x\<close> is the \<open>*ninjaBlock\<close> the caller read from \<open>ni.blocks\<close>, nil when the id is
  not stored. The threshold is computed in 32 bits and widened.
\<close>

definition globalOpinion :: "votingPattern \<Rightarrow> ninjaBlock option \<Rightarrow> (error + vecptr) M" where
  "globalOpinion p x =
     bnd (deref x) (\<lambda>xb.
     bnd (gets (\<lambda>s. lookup2 (tTally s) p (ID xb))) (\<lambda>found.
     case found of
       None \<Rightarrow> ret (Inl (NotInView (Id (Block xb)) p))
     | Some v \<Rightarrow>
         bnd (gets LayerSize) (\<lambda>lsize.
         bnd (deref v) (\<lambda>pv.
         bnd (gets (\<lambda>s. vecs s pv)) (\<lambda>cell.
         let delta = LayerID p - Layer xb;
             threshold = (ucast ((GlobalThreshold * delta) * lsize) :: goint)
         in if sint threshold < sint (fst cell) then ret (Inr (Some Support))
            else if sint threshold < sint (snd cell) then ret (Inr (Some Against))
            else ret (Inr (Some Abstain)))))))"

section \<open>Correction vectors and the pattern tally\<close>

definition updateCorrectionVectors :: "votingPattern \<Rightarrow> unit M" where
  "updateCorrectionVectors p =
     bnd (gets (\<lambda>s. sliceOf (tEffectiveToBlocks s p))) (\<lambda>effBlocks.
     forM effBlocks (\<lambda>b.
       bnd (gets (\<lambda>s. sliceOf (tPattern s p))) (\<lambda>pat.
       forM pat (\<lambda>x.
         bnd (gets (\<lambda>s. lookup2 (tExplicit s) (Layer_vp p) b)) (\<lambda>found.
         case found of
           None \<Rightarrow> ret ()
         | Some e \<Rightarrow>
             bnd (modify (\<lambda>s. if tCorrect s x = None
                                then s\<lparr>tCorrect := (tCorrect s)(x \<mapsto> Map.empty)\<rparr> else s)) (\<lambda>_.
             bnd (gets (\<lambda>s. nilIfAbsent (lookup2 (tVote s) p x))) (\<lambda>vote.
             bnd (Negate vote) (\<lambda>neg.
             modify (\<lambda>s. s\<lparr>tCorrect := (tCorrect s)
               (x \<mapsto> (case tCorrect s x of None \<Rightarrow> Map.empty | Some inner \<Rightarrow> inner)(p \<mapsto> neg))\<rparr>)))))))))"

text \<open>
  The closure \<open>foo\<close> of \<open>updatePatternTally\<close>; it has captured \<open>corr\<close> and
  \<open>effCount\<close>. \<open>*ni.tEffective[b.ID()]\<close> dereferences what the table holds.
\<close>

definition tallyVisitor :: "votingPattern \<Rightarrow> ninjaBlock \<Rightarrow> vecptr \<times> goint \<Rightarrow> (vecptr \<times> goint) M" where
  "tallyVisitor g b loc =
     bnd (gets (\<lambda>s. nilIfAbsent (tEffective s (ID b)))) (\<lambda>effp.
     bnd (deref effp) (\<lambda>eff.
     if eff = g then
       bnd (gets (\<lambda>s. nilIfAbsent (lookup2 (tCorrect s) (ID b) g))) (\<lambda>c.
       bnd (Add (fst loc) c) (\<lambda>corr.
       ret (corr, snd loc + 1)))
     else ret loc))"

text \<open>
  \<open>updatePatternTally\<close>. The list it fills first is never read and is left out. The
  layer loop starts at \<open>ni.pBase\<close>, not at the argument.
\<close>

definition updatePatternTally :: "votingPattern \<Rightarrow> votingPattern \<Rightarrow> votingPattern \<Rightarrow> unit M" where
  "updatePatternTally pBase_arg g p =
     bnd (newVec (0, 0)) (\<lambda>corr0.
     bnd (gets (\<lambda>s. sliceOf (tPattern s p))) (\<lambda>seeds.
     bnd (forBlockInView seeds (Layer_vp g) (tallyVisitor g) (corr0, 0)) (\<lambda>r.
     bnd (gets (\<lambda>s. Layer_vp (pBase s))) (\<lambda>start.
     bnd (layersUpTo start (Layer_vp g)) (\<lambda>layers.
     forM layers (\<lambda>i.
       bnd (gets (\<lambda>s. layerBlocks s i)) (\<lambda>found.
       case found of
         None \<Rightarrow> ret ()
       | Some layer \<Rightarrow>
           forM layer (\<lambda>b.
             bnd (gets (\<lambda>s. lookup2 (tVote s) g b)) (\<lambda>vfound.
             case vfound of
               None \<Rightarrow> ret ()
             | Some v \<Rightarrow>
                 bnd (gets (\<lambda>s. nilIfAbsent (lookup2 (tTally s) p b))) (\<lambda>old.
                 bnd (Multiplay v (snd (snd r))) (\<lambda>scaled.
                 bnd (Add scaled (fst (snd r))) (\<lambda>term.
                 bnd (Add old term) (\<lambda>tally.
                 assignTally p b tally)))))))))))))"

section \<open>Finding good layers\<close>

definition incSupport :: "votingPattern \<Rightarrow> unit M" where
  "incSupport p =
     modify (\<lambda>s. s\<lparr>tSupport := (tSupport s)(p \<mapsto> (case tSupport s p of None \<Rightarrow> 0 | Some n \<Rightarrow> n) + 1)\<rparr>)"

text \<open>\<open>sUpdated[*p] = struct{}{}\<close>, the set kept as the list of its keys.\<close>

definition addKey :: "'a \<Rightarrow> 'a list \<Rightarrow> 'a list" where
  "addKey k ks = (if k \<in> set ks then ks else ks @ [k])"

text \<open>
  One block of the new layer and one scanned layer \<open>j\<close>. The branch of an explicit vote
  counts the vote, and the test \<open>if found\<close> after it counts it again.
\<close>

definition supportRound :: "LayerID \<Rightarrow> ninjaBlock \<Rightarrow> votingPattern list \<Rightarrow> votingPattern list M" where
  "supportRound j block sUpdated =
     (case BlockVotes_nb block j of
        Some p \<Rightarrow>
          bnd (modify (\<lambda>s. if lookup2 (tExplicit s) j (ID block) = None
                             then s\<lparr>tExplicit := (tExplicit s)(j \<mapsto> Map.empty)\<rparr> else s)) (\<lambda>_.
          bnd (modify (\<lambda>s. s\<lparr>tExplicit := (tExplicit s)
                 (j \<mapsto> (case tExplicit s j of None \<Rightarrow> Map.empty | Some inner \<Rightarrow> inner)(ID block \<mapsto> p))\<rparr>)) (\<lambda>_.
          bnd (deref p) (\<lambda>vp.
          bnd (incSupport vp) (\<lambda>_.
          bnd (incSupport vp) (\<lambda>_.
          ret (addKey vp (addKey vp sUpdated)))))))
      | None \<Rightarrow>
          bnd (gets (\<lambda>s. tEffective s (ID block))) (\<lambda>effFound.
          case effFound of
            None \<Rightarrow> ret sUpdated
          | Some effp \<Rightarrow>
              bnd (deref effp) (\<lambda>eff.
              bnd (gets (\<lambda>s. lookup2 (tPatSupport s) eff j)) (\<lambda>found.
              case found of
                None \<Rightarrow> ret sUpdated
              | Some p \<Rightarrow>
                  bnd (deref p) (\<lambda>vp.
                  bnd (incSupport vp) (\<lambda>_.
                  ret (addKey vp sUpdated)))))))"

text \<open>
  The test of a pattern that was updated. Both conversions to \<open>float64\<close> are exact for
  the operands of the right-hand side, and the conversion of the left-hand side is
  monotone, so the comparison of the source is the comparison of the integers doubled.
\<close>

definition majority :: "32 word \<Rightarrow> LayerID \<Rightarrow> votingPattern \<Rightarrow> goint \<Rightarrow> bool" where
  "majority lsize i p support = (uint (lsize * i - Layer_vp p) < 2 * sint support)"

definition goodRound :: "LayerID \<Rightarrow> LayerID \<Rightarrow> votingPattern \<Rightarrow> LayerID \<Rightarrow> LayerID M" where
  "goodRound i j p minGood =
     bnd (gets (\<lambda>s. tGood s j)) (\<lambda>jGood.
     bnd (gets (\<lambda>s. case tSupport s p of None \<Rightarrow> 0 | Some n \<Rightarrow> n)) (\<lambda>support.
     bnd (gets LayerSize) (\<lambda>lsize.
     if jGood \<noteq> Some p \<and> majority lsize i p support then
       bnd (modify (\<lambda>s. s\<lparr>tGood := (tGood s)(Layer_vp p \<mapsto> p)\<rparr>)) (\<lambda>_.
       ret (if Layer_vp p < i then Layer_vp p else minGood))
     else ret minGood)))"

definition scanStart :: "LayerID \<Rightarrow> LayerID \<Rightarrow> LayerID" where
  "scanStart base i = (if i < Window then base + 1 else max (base + 1) (i - Window))"

definition findMinimalGoodLayer :: "(nat \<Rightarrow> votingPattern list \<Rightarrow> votingPattern list) \<Rightarrow> LayerID
    \<Rightarrow> ninjaBlock list \<Rightarrow> LayerID M" where
  "findMinimalGoodLayer po i b =
     bnd (gets (\<lambda>s. Layer_vp (pBase s))) (\<lambda>base.
     foldM (\<lambda>j minGood.
        bnd (foldM (supportRound j) b []) (\<lambda>sUpdated.
        bnd (rangeOrder po sUpdated) (\<lambda>order.
        foldM (goodRound i j) order minGood)))
       (layersBelow (scanStart base i) i) base)"

section \<open>Votes of a pattern, and the tables of a layer\<close>

definition addPatternVote :: "votingPattern \<Rightarrow> ninjaBlock \<Rightarrow> unit \<Rightarrow> unit M" where
  "addPatternVote p b u =
     bnd (gets (\<lambda>s. nilIfAbsent (lookup2 (tExplicit s) (Layer_vp p) (ID b)))) (\<lambda>exp.
     bnd (newVec (case exp of None \<Rightarrow> (0, 0) | Some e \<Rightarrow> if p = e then (1, 0) else (0, 1))) (\<lambda>v.
     bnd (modify (\<lambda>s. if tTally s p = None
                        then s\<lparr>tTally := (tTally s)(p \<mapsto> Map.empty)\<rparr> else s)) (\<lambda>_.
     bnd (gets (\<lambda>s. nilIfAbsent (lookup2 (tTally s) p (ID b)))) (\<lambda>old.
     bnd (Add old v) (\<lambda>sum.
     assignTally p (ID b) sum)))))"

definition sumNodesInView :: "(LayerID \<Rightarrow> goint) \<Rightarrow> LayerID \<Rightarrow> LayerID \<Rightarrow> vecptr M" where
  "sumNodesInView layerViewCounter i p =
     Multiplay (Some Against) (fold (\<lambda>k sum. sum + layerViewCounter k) (layersBelow i p) 0)"

text \<open>
  \<open>for k, v := range ni.tTally[*ni.pBase]\<close>: every entry is copied to \<open>tTally[p]\<close>,
  which is made when the first entry finds it absent. The keys differ, so the order of
  this walk does not show in the result.
\<close>

definition seedTally :: "votingPattern \<Rightarrow> unit M" where
  "seedTally p =
     modify (\<lambda>s. case tTally s (pBase s) of
                    None \<Rightarrow> s
                  | Some src \<Rightarrow>
                      if src = Map.empty then s
                      else s\<lparr>tTally := (tTally s)
                        (p \<mapsto> (case tTally s p of None \<Rightarrow> Map.empty | Some inner \<Rightarrow> inner) ++ src)\<rparr>)"

text \<open>One block id of a layer between \<open>pBase\<close> and \<open>p\<close>; the locals are \<open>flag\<close> and \<open>bids\<close>.\<close>

definition opinionRound :: "votingPattern \<Rightarrow> (LayerID \<Rightarrow> goint) \<Rightarrow> LayerID \<Rightarrow> BlockID
    \<Rightarrow> bool \<times> BlockID list \<Rightarrow> (bool \<times> BlockID list) M" where
  "opinionRound p layerViewCounter i bid loc =
     bnd (gets (\<lambda>s. lookup2 (tTally s) p bid)) (\<lambda>found.
     bnd (case found of
            Some v \<Rightarrow> ret ()
          | None \<Rightarrow> bnd (sumNodesInView layerViewCounter i (Layer_vp p)) (assignTally p bid)) (\<lambda>_.
     bnd (gets (\<lambda>s. blocks s bid)) (\<lambda>b.
     bnd (globalOpinion p b) (\<lambda>r.
     case r of
       Inr vote \<Rightarrow>
         bnd (modify (\<lambda>s. if tVote s p = None
                            then s\<lparr>tVote := (tVote s)(p \<mapsto> Map.empty)\<rparr> else s)) (\<lambda>_.
         bnd (deref b) (\<lambda>nb.
         bnd (assignVote p (ID nb) vote) (\<lambda>_.
         ret (fst loc, snd loc @ [bid]))))
     | Inl err \<Rightarrow> ret (False, snd loc)))))"

definition layerRound :: "votingPattern \<Rightarrow> (LayerID \<Rightarrow> goint) \<Rightarrow> LayerID \<Rightarrow> bool \<Rightarrow> bool M" where
  "layerRound p layerViewCounter i flag =
     bnd (gets (\<lambda>s. layerBlocks s i)) (\<lambda>found.
     case found of
       None \<Rightarrow> ret flag
     | Some layer \<Rightarrow>
         bnd (foldM (opinionRound p layerViewCounter i) layer (flag, [])) (\<lambda>r.
         bnd (modify (\<lambda>s. s\<lparr>tPatSupport := (tPatSupport s)
                (p \<mapsto> (case tPatSupport s p of None \<Rightarrow> Map.empty | Some inner \<Rightarrow> inner)
                           (i \<mapsto> Some \<lparr>id_vp = getId (snd r), LayerID = i\<rparr>))\<rparr>)) (\<lambda>_.
         ret (fst r))))"

text \<open>
  The body of the loop of \<open>UpdateTables\<close> over the layers \<open>l \<le> j < i\<close>, for a layer
  with a good pattern \<open>p\<close>, up to the value of \<open>flag\<close>.
\<close>

definition patternTally :: "LayerID \<Rightarrow> votingPattern \<Rightarrow> bool M" where
  "patternTally j p =
     bnd (seedTally p) (\<lambda>_.
     bnd (gets (\<lambda>s. Layer_vp (pBase s))) (\<lambda>start.
     bnd (forM (layersBelow start j) (\<lambda>k.
            bnd (gets (\<lambda>s. tGood s k)) (\<lambda>kfound.
            case kfound of
              None \<Rightarrow> ret ()
            | Some gK \<Rightarrow> bnd (gets pBase) (\<lambda>pb. updatePatternTally pb gK p)))) (\<lambda>_.
     bnd (gets (\<lambda>s. sliceOf (tPattern s p))) (\<lambda>seeds.
     bnd (gets (\<lambda>s. Layer_vp (pBase s))) (\<lambda>cutoff.
     bnd (forBlockInView seeds cutoff (addPatternVote p) ()) (\<lambda>view.
     bnd (updateCorrectionVectors p) (\<lambda>_.
     bnd (gets (\<lambda>s. Layer_vp (pBase s))) (\<lambda>start'.
     bnd (layersUpTo start' j) (\<lambda>layers.
     foldM (layerRound p (fst view)) layers True)))))))))"

text \<open>The completeness of \<open>p\<close>: \<open>flag\<close> and \<open>p\<close> not yet in \<open>tComplete\<close>.\<close>

definition tallyRound :: "LayerID \<Rightarrow> unit M" where
  "tallyRound j =
     bnd (gets (\<lambda>s. tGood s j)) (\<lambda>found.
     case found of
       None \<Rightarrow> ret ()
     | Some p \<Rightarrow>
         bnd (patternTally j p) (\<lambda>flag.
         modify (\<lambda>s. if flag \<and> p \<notin> tComplete s
                       then s\<lparr>tComplete := insert p (tComplete s), pBase := p\<rparr>
                       else s)))"

text \<open>The first loop of \<open>UpdateTables\<close>: the block is stored and entered in its layer.\<close>

definition insertRound :: "(nat \<Rightarrow> LayerID list \<Rightarrow> LayerID list) \<Rightarrow> LayerID \<Rightarrow> Block
    \<Rightarrow> ninjaBlock list \<Rightarrow> ninjaBlock list M" where
  "insertRound lo i block b =
     bnd (processBlock lo block) (\<lambda>nb.
     bnd (modify (\<lambda>s. s\<lparr>layerBlocks := (layerBlocks s)
            (i \<mapsto> sliceOf (layerBlocks s i) @ [Id block])\<rparr>)) (\<lambda>_.
     ret (b @ [nb])))"

definition UpdateTables :: "(nat \<Rightarrow> LayerID list \<Rightarrow> LayerID list)
    \<Rightarrow> (nat \<Rightarrow> votingPattern list \<Rightarrow> votingPattern list) \<Rightarrow> Block list \<Rightarrow> LayerID \<Rightarrow> LayerID M" where
  "UpdateTables lo po B i =
     bnd (foldM (insertRound lo i) B []) (\<lambda>b.
     if i = 0 then ret 0
     else
       bnd (findMinimalGoodLayer po i b) (\<lambda>l.
       bnd (forM (layersBelow l i) tallyRound) (\<lambda>_.
       gets (\<lambda>s. LayerID (pBase s)))))"

text \<open>
  Modelled from the spec: the constructor of the engine is declared outside the tortoise
  file. All tables are empty, \<open>pBase\<close> is a sentinel pattern at layer 0, and the three
  opinion constants hold (1, 0), (0, 1) and (0, 0).
\<close>

definition NewNinjaTortoise :: "32 word \<Rightarrow> machine" where
  "NewNinjaTortoise layerSize =
     \<lparr>LayerSize = layerSize, pBase = \<lparr>id_vp = 0, LayerID = 0\<rparr>,
      blocks = Map.empty, tEffective = Map.empty, tCorrect = Map.empty,
      layerBlocks = Map.empty, tExplicit = Map.empty, tGood = Map.empty,
      tSupport = Map.empty, tPattern = Map.empty, tVote = Map.empty, tTally = Map.empty,
      tComplete = {}, tEffectiveToBlocks = Map.empty, tPatSupport = Map.empty,
      vecs = (\<lambda>a. (0, 0))(Support := (1, 0), Against := (0, 1), Abstain := (0, 0)),
      nextv = 3, ranges = 0\<rparr>"

section \<open>Runs of the engine\<close>

text \<open>Two ways in which the runtime may walk a map: in the order of insertion, and backwards.\<close>

definition inOrder :: "nat \<Rightarrow> 'k list \<Rightarrow> 'k list" where
  "inOrder n keys = keys"

definition backwards :: "nat \<Rightarrow> 'k list \<Rightarrow> 'k list" where
  "backwards n keys = rev keys"

text \<open>A sequence of calls of \<open>UpdateTables\<close>; the caller goes on after a panic.\<close>

definition feed :: "(nat \<Rightarrow> LayerID list \<Rightarrow> LayerID list)
    \<Rightarrow> (nat \<Rightarrow> votingPattern list \<Rightarrow> votingPattern list)
    \<Rightarrow> (Block list \<times> LayerID) list \<Rightarrow> machine \<Rightarrow> machine" where
  "feed lo po calls s = fold (\<lambda>call t. snd (UpdateTables lo po (fst call) (snd call) t)) calls s"

text \<open>A chain of three blocks, one in each of the layers 0, 1 and 2.\<close>

definition blockL0 :: Block where
  "blockL0 = \<lparr>Id = 1, LayerIndex = 0, BlockVotes = [], ViewEdges = []\<rparr>"

definition blockL1 :: Block where
  "blockL1 = \<lparr>Id = 2, LayerIndex = 1, BlockVotes = [1], ViewEdges = [1]\<rparr>"

definition blockL2 :: Block where
  "blockL2 = \<lparr>Id = 3, LayerIndex = 2, BlockVotes = [2], ViewEdges = [2]\<rparr>"

definition chain :: "(Block list \<times> LayerID) list" where
  "chain = [([blockL0], 0), ([blockL1], 1), ([blockL2], 2)]"

text \<open>A block of layer 2 that votes for a block of layer 0 and for a block of layer 1.\<close>

definition twoLayerVoter :: Block where
  "twoLayerVoter = \<lparr>Id = 3, LayerIndex = 2, BlockVotes = [1, 2], ViewEdges = [2]\<rparr>"

text \<open>A second block of layer 2 with the same vote, and a block of layer 3 that votes in two layers.\<close>

definition blockL2' :: Block where
  "blockL2' = \<lparr>Id = 4, LayerIndex = 2, BlockVotes = [2], ViewEdges = [2]\<rparr>"

definition blockL3 :: Block where
  "blockL3 = \<lparr>Id = 4, LayerIndex = 3, BlockVotes = [2, 3], ViewEdges = [3]\<rparr>"

text \<open>Blocks with an edge to the id 7, which no block has.\<close>

definition orphanViewer :: Block where
  "orphanViewer = \<lparr>Id = 1, LayerIndex = 0, BlockVotes = [], ViewEdges = [7]\<rparr>"

definition orphanVoter :: Block where
  "orphanVoter = \<lparr>Id = 2, LayerIndex = 0, BlockVotes = [7], ViewEdges = []\<rparr>"

text \<open>A visitor that writes down the ids it is called with.\<close>

definition recordVisit :: "ninjaBlock \<Rightarrow> BlockID list \<Rightarrow> BlockID list M" where
  "recordVisit b visited = ret (visited @ [ID b])"

text \<open>
  The majority bound as the specification words it, for comparison: the support exceeds
  half of \<open>LayerSize\<close> times the number of layers \<open>i - p.Layer\<close>.
\<close>

definition majority_spec :: "32 word \<Rightarrow> LayerID \<Rightarrow> votingPattern \<Rightarrow> goint \<Rightarrow> bool" where
  "majority_spec lsize i p support =
     (uint lsize * (uint i - uint (Layer_vp p)) < 2 * sint support)"

lemmas monad_defs =
  Let_def bnd_def ret_def raise_def gets_def modify_def deref_def rangeOrder_def

lemmas table_defs =
  lookup2_def nilIfAbsent_def sliceOf_def assignTally_def assignVote_def

lemmas engine_defs =
  UpdateTables_def insertRound_def patternTally_def processBlock_def findMinimalGoodLayer_def scanStart_def layersBelow_def
  layersUpTo_def Window_def Layer_vp_def patternRound_def Layer_def ID_def tallyRound_def
  seedTally_def supportRound_def goodRound_def majority_def incSupport_def addKey_def
  forBlockInView_def childrenOf_def addPatternVote_def updateCorrectionVectors_def
  updatePatternTally_def tallyVisitor_def layerRound_def opinionRound_def globalOpinion_def
  sumNodesInView_def newVec_def Add_def Negate_def Multiplay_def Support_def Against_def
  Abstain_def GlobalThreshold_def sortBids_def upt_rec

lemmas run_defs =
  feed_def chain_def blockL0_def blockL1_def blockL2_def twoLayerVoter_def inOrder_def
  backwards_def NewNinjaTortoise_def blockL2'_def blockL3_def orphanViewer_def orphanVoter_def
  recordVisit_def

section \<open>Vote algebra: the receiver is overwritten\<close>

text \<open>
  C5. \<open>Negate\<close> and \<open>Multiplay\<close> write their result into the cell of the receiver.
  Called on the package variables of a fresh engine, \<open>Support.Negate()\<close> leaves
  \<open>Support\<close> at (-1, 0) and \<open>Against.Multiplay(3)\<close> leaves \<open>Against\<close> at (0, 3):
  the shared vectors do not keep their values.
\<close>

theorem Negate_Multiplay_overwrite_receiver:
  "vecs (NewNinjaTortoise n) Support = (1, 0) \<and>
   vecs (snd (Negate (Some Support) (NewNinjaTortoise n))) Support = (- 1, 0) \<and>
   vecs (NewNinjaTortoise n) Against = (0, 1) \<and>
   vecs (snd (Multiplay (Some Against) 3 (NewNinjaTortoise n))) Against = (0, 3)"
  by (simp add: Negate_def Multiplay_def NewNinjaTortoise_def Support_def Against_def Abstain_def)

section \<open>Pattern identity\<close>

lemma fold_fnv32_Write:
  "fold (\<lambda>b h. fnv32_Write h (Uint32ToBytes b)) bids h
     = fnv32_Write h (concat (map Uint32ToBytes bids))"
  by (induction bids arbitrary: h) (simp_all add: fnv32_Write_def)

text \<open>
  C9, as the claim states it, fails in its digest: \<open>getId\<close> hashes with FNV-1 (multiply,
  then xor), and for the single id 1 this is not the FNV-1a value.
\<close>

theorem getId_not_fnv1a: "getId [1] \<noteq> patternId_spec [1]"
  by (simp add: getId_def sortBids_def patternId_spec_def fnv32_Write_def fnv32a_Write_def
      Uint32ToBytes_def offset32_def prime32_def)

text \<open>
  C9, amended. \<open>getId\<close> of any rearrangement of a list of ids is the FNV-1 digest
  (32 bits, multiply by the prime and then xor the byte) of the big-endian 4-byte
  encodings of the ids sorted ascending as unsigned 32-bit integers. The value does not
  depend on the order of the input.
\<close>

theorem getId_order_invariant:
  assumes "mset bids' = mset bids"
  shows "getId bids' = fnv32_Write offset32 (concat (map Uint32ToBytes (sort bids)))"
proof -
  have "sort bids = sort bids'"
    by (rule properties_for_sort) (simp_all add: assms)
  then show ?thesis
    by (simp add: getId_def sortBids_def fold_fnv32_Write)
qed

theorem getId_order_invariant_witness:
  "mset [2, 1 :: BlockID] = mset [1, 2] \<and>
   getId [2, 1] = fnv32_Write offset32 (concat (map Uint32ToBytes (sort [1, 2])))"
  using getId_order_invariant [of "[2, 1]" "[1, 2]"] by simp

section \<open>The explicit votes kept for a block\<close>






section \<open>Good patterns\<close>

text \<open>
  C1. The test of \<open>findMinimalGoodLayer\<close> compares the support with half of
  \<open>LayerSize * i - p.Layer\<close>, not with half of \<open>LayerSize * (i - p.Layer)\<close>. With
  \<open>LayerSize = 3\<close> and the chain of three blocks, the pattern of layer 1 has support 2
  when layer 2 is processed; 2 exceeds the bound 1.5 of the claim, and the pattern is not
  recorded in \<open>tGood\<close>.
\<close>

theorem findMinimalGoodLayer_misses_majority:
  "tSupport (feed inOrder inOrder chain (NewNinjaTortoise 3)) \<lparr>id_vp = getId [2], LayerID = 1\<rparr>
     = Some 2 \<and>
   majority_spec 3 2 \<lparr>id_vp = getId [2], LayerID = 1\<rparr> 2 \<and>
   tGood (feed inOrder inOrder chain (NewNinjaTortoise 3)) 1 = None"
  by (simp add: run_defs engine_defs monad_defs table_defs majority_spec_def)

text \<open>
  C7. Two blocks of layer 2 vote explicitly for the same pattern of layer 1. The support
  of the pattern is 4 afterwards, two increments for each block, and \<open>tExplicit[1]\<close>
  holds the registration of the second block only: that of the first block is lost when
  the map of the layer is made anew.
\<close>

theorem explicit_vote_counted_twice_and_registrations_lost:
  "tSupport (feed inOrder inOrder [([blockL0], 0), ([blockL1], 1), ([blockL2, blockL2'], 2)]
      (NewNinjaTortoise 2)) \<lparr>id_vp = getId [2], LayerID = 1\<rparr> = Some 4 \<and>
   lookup2 (tExplicit (feed inOrder inOrder
      [([blockL0], 0), ([blockL1], 1), ([blockL2, blockL2'], 2)] (NewNinjaTortoise 2))) 1 3 = None \<and>
   lookup2 (tExplicit (feed inOrder inOrder
      [([blockL0], 0), ([blockL1], 1), ([blockL2, blockL2'], 2)] (NewNinjaTortoise 2))) 1 4
     = Some (Some \<lparr>id_vp = getId [2], LayerID = 1\<rparr>)"
  by (simp add: run_defs engine_defs monad_defs table_defs)

section \<open>Completeness\<close>

text \<open>
  C2. With \<open>LayerSize = 1\<close> and the chain of three blocks, the pattern of layer 1 is
  found good when layer 2 is processed. Its global opinion on block 1 is \<open>Abstain\<close>,
  and the pattern is nevertheless entered in \<open>tComplete\<close> and becomes \<open>pBase\<close>; the
  call returns 1.
\<close>

theorem complete_with_Abstain:
  "lookup2 (tVote (feed inOrder inOrder chain (NewNinjaTortoise 1)))
      \<lparr>id_vp = getId [2], LayerID = 1\<rparr> 1 = Some (Some Abstain) \<and>
   \<lparr>id_vp = getId [2], LayerID = 1\<rparr> \<in> tComplete (feed inOrder inOrder chain (NewNinjaTortoise 1)) \<and>
   pBase (feed inOrder inOrder chain (NewNinjaTortoise 1)) = \<lparr>id_vp = getId [2], LayerID = 1\<rparr> \<and>
   fst (UpdateTables inOrder inOrder [blockL2] 2
          (feed inOrder inOrder (take 2 chain) (NewNinjaTortoise 1))) = Inr 1"
  by (simp add: run_defs engine_defs monad_defs table_defs)

section \<open>Determinism\<close>

text \<open>
  C3. The same four calls are made on two fresh engines of the same configuration. The
  block of layer 3 votes for blocks of the layers 1 and 2. Where the walk over
  \<open>patterns\<close> takes the layers in the order 1, 2 the call returns 2 and \<open>pBase\<close> is the
  pattern of layer 2; where it takes them in the order 2, 1 the call returns 1 and
  \<open>pBase\<close> stays the pattern of layer 1.
\<close>

theorem walk_order_changes_pBase:
  "fst (UpdateTables inOrder inOrder [blockL3] 3 (feed inOrder inOrder chain (NewNinjaTortoise 1)))
     = Inr 2 \<and>
   pBase (feed inOrder inOrder (chain @ [([blockL3], 3)]) (NewNinjaTortoise 1))
     = \<lparr>id_vp = getId [3], LayerID = 2\<rparr> \<and>
   fst (UpdateTables backwards inOrder [blockL3] 3 (feed backwards inOrder chain (NewNinjaTortoise 1)))
     = Inr 1 \<and>
   pBase (feed backwards inOrder (chain @ [([blockL3], 3)]) (NewNinjaTortoise 1))
     = \<lparr>id_vp = getId [2], LayerID = 1\<rparr>"
  by (simp add: run_defs engine_defs monad_defs table_defs)

section \<open>The view of a set of blocks: visits\<close>

text \<open>
  C6. The blocks 1 (layer 0) and 2 (layer 1, with a view edge to 1) are stored, and both
  are seeds. \<open>forBlockInView\<close> with the cutoff 0 calls the visitor with 1, 2 and 1
  again, and counts two visits in layer 0: a seed is not entered in \<open>set\<close>, so a seed
  that is also the child of a visited block is visited a second time.
\<close>

theorem forBlockInView_visits_seed_twice:
  "\<exists>lc. fst (forBlockInView [2, 1] 0 recordVisit []
              (feed inOrder inOrder (take 2 chain) (NewNinjaTortoise 1))) = Inr (lc, [1, 2, 1]) \<and>
        lc 0 = 2 \<and> lc 1 = 1"
  by (simp add: run_defs engine_defs monad_defs table_defs)

section \<open>Unknown blocks\<close>

text \<open>
  C4, as the claim states it, fails. A block with a view edge to an id that no block has
  is stored at layer 0 and the call returns 0. A block with such a vote edge makes the
  call panic, and the block of the same call that came before it stays stored.
\<close>

theorem unknown_edges_counterexample:
  "fst (UpdateTables inOrder inOrder [orphanViewer] 0 (NewNinjaTortoise 1)) = Inr 0 \<and>
   blocks (snd (UpdateTables inOrder inOrder [orphanViewer] 0 (NewNinjaTortoise 1))) 1 \<noteq> None \<and>
   fst (UpdateTables inOrder inOrder [blockL0, orphanVoter] 0 (NewNinjaTortoise 1))
     = Inl UnknownBlock \<and>
   blocks (NewNinjaTortoise 1) 1 = None \<and>
   blocks (snd (UpdateTables inOrder inOrder [blockL0, orphanVoter] 0 (NewNinjaTortoise 1))) 1
     \<noteq> None"
  by (simp add: run_defs engine_defs monad_defs table_defs)

lemma groupVotes_unknown:
  "bid \<in> set votes \<Longrightarrow> blks bid = None \<Longrightarrow> groupVotes blks votes pats = Inl UnknownBlock"
proof (induction votes arbitrary: pats)
  case Nil
  then show ?case by simp
next
  case (Cons a votes)
  then show ?case by (cases "blks a") auto
qed

lemma groupVotes_panic:
  "groupVotes blks votes pats = Inl e \<Longrightarrow> e = UnknownBlock"
  by (induction votes arbitrary: pats) (auto split: option.splits)

lemma foldM_patternRound_blocks:
  "\<exists>r. fst (foldM (patternRound pats) order acc s) = Inr r \<and>
       blocks (snd (foldM (patternRound pats) order acc s)) = blocks s"
proof (induction order arbitrary: acc s)
  case Nil
  then show ?case by simp
next
  case (Cons l order)
  obtain acc' s1 where step: "patternRound pats l acc s = (Inr acc', s1)"
    and b: "blocks s1 = blocks s"
    by (cases "map_of pats l") (auto simp: patternRound_def monad_defs)
  show ?case using Cons.IH [of acc' s1] step b by simp
qed

lemma processBlock_outcome:
  "(processBlock lo b s = (Inl UnknownBlock, s)) \<or>
   (\<exists>nb. fst (processBlock lo b s) = Inr nb \<and>
      blocks (snd (processBlock lo b s)) = (blocks s)(Id b \<mapsto> nb))"
proof (cases "groupVotes (blocks s) (BlockVotes b) []")
  case (Inl e)
  then show ?thesis using groupVotes_panic [OF Inl]
    by (simp add: processBlock_def monad_defs)
next
  case (Inr pats)
  define s0 where "s0 = s\<lparr>ranges := Suc (ranges s)\<rparr>"
  define order where "order = lo (ranges s) (map fst pats)"
  obtain r where f: "fst (foldM (patternRound pats) order (Map.empty, None) s0) = Inr r"
    and bl: "blocks (snd (foldM (patternRound pats) order (Map.empty, None) s0)) = blocks s0"
    using foldM_patternRound_blocks by blast
  obtain s1 where f': "foldM (patternRound pats) order (Map.empty, None) s0 = (Inr r, s1)"
    using f by (cases "foldM (patternRound pats) order (Map.empty, None) s0") auto
  have "blocks s1 = blocks s" using bl f' by (simp add: s0_def)
  then show ?thesis using Inr f'
    by (cases r) (auto simp: processBlock_def monad_defs s0_def order_def split: option.splits)
qed

lemma processBlock_unknown:
  assumes "bid \<in> set (BlockVotes b)" "blocks s bid = None"
  shows "processBlock lo b s = (Inl UnknownBlock, s)"
  using groupVotes_unknown [of bid "BlockVotes b" "blocks s" "[]"] assms
  by (simp add: processBlock_def monad_defs)

lemma insertRound_outcome:
  "(insertRound lo i b acc s = (Inl UnknownBlock, s)) \<or>
   (\<exists>acc'. fst (insertRound lo i b acc s) = Inr acc' \<and>
      (\<forall>bid. bid \<noteq> Id b \<longrightarrow> blocks (snd (insertRound lo i b acc s)) bid = blocks s bid))"
  using processBlock_outcome [of lo b s]
  by (cases "processBlock lo b s") (auto simp: insertRound_def monad_defs)

text \<open>
  Every vote edge of every block of the list names an id in \<open>known\<close> or the id of a block
  earlier in the list.
\<close>

fun votesKnown :: "BlockID set \<Rightarrow> Block list \<Rightarrow> bool" where
  "votesKnown known [] = True"
| "votesKnown known (b # B) = (set (BlockVotes b) \<subseteq> known \<and> votesKnown (insert (Id b) known) B)"

lemma groupVotes_known:
  "set votes \<subseteq> dom blks \<Longrightarrow> \<exists>r. groupVotes blks votes pats = Inr r"
  by (induction votes arbitrary: pats) auto

lemma processBlock_known:
  assumes "set (BlockVotes b) \<subseteq> dom (blocks s)"
  shows "\<exists>nb. fst (processBlock lo b s) = Inr nb \<and>
      blocks (snd (processBlock lo b s)) = (blocks s)(Id b \<mapsto> nb)"
proof -
  obtain pats where g: "groupVotes (blocks s) (BlockVotes b) [] = Inr pats"
    using groupVotes_known [OF assms] by blast
  have "processBlock lo b s \<noteq> (Inl UnknownBlock, s)"
    using g foldM_patternRound_blocks
      [of pats "lo (ranges s) (map fst pats)" "(Map.empty, None)" "s\<lparr>ranges := Suc (ranges s)\<rparr>"]
    by (auto simp: processBlock_def monad_defs split: prod.splits sum.splits option.splits)
  then show ?thesis using processBlock_outcome [of lo b s] by blast
qed

lemma insertRound_known:
  assumes "set (BlockVotes b) \<subseteq> dom (blocks s)"
  shows "\<exists>acc'. fst (insertRound lo i b acc s) = Inr acc' \<and>
      dom (blocks (snd (insertRound lo i b acc s))) = insert (Id b) (dom (blocks s))"
  using processBlock_known [OF assms, of lo]
  by (cases "processBlock lo b s") (auto simp: insertRound_def monad_defs)

lemma insert_loop_known:
  assumes "votesKnown (dom (blocks s)) B"
  shows "\<exists>nbs. fst (foldM (insertRound lo i) B acc s) = Inr nbs \<and>
      dom (blocks (snd (foldM (insertRound lo i) B acc s))) = dom (blocks s) \<union> Id ` set B"
  using assms
proof (induction B arbitrary: acc s)
  case Nil
  then show ?case by simp
next
  case (Cons x B)
  from Cons.prems have v: "set (BlockVotes x) \<subseteq> dom (blocks s)"
    and k: "votesKnown (insert (Id x) (dom (blocks s))) B" by simp_all
  obtain acc' s1 where st: "insertRound lo i x acc s = (Inr acc', s1)"
    and d: "dom (blocks s1) = insert (Id x) (dom (blocks s))"
    using insertRound_known [OF v, of lo i acc] by (cases "insertRound lo i x acc s") auto
  have "votesKnown (dom (blocks s1)) B" using k d by simp
  from Cons.IH [OF this, of acc'] obtain nbs where
    "fst (foldM (insertRound lo i) B acc' s1) = Inr nbs"
    "dom (blocks (snd (foldM (insertRound lo i) B acc' s1))) = dom (blocks s1) \<union> Id ` set B"
    by blast
  then show ?case using st d by auto
qed

lemma foldM_append:
  "foldM f (xs @ ys) a s =
     (case foldM f xs a s of (Inl e, s') \<Rightarrow> (Inl e, s') | (Inr a', s') \<Rightarrow> foldM f ys a' s')"
proof (induction xs arbitrary: a s)
  case Nil
  then show ?case by simp
next
  case (Cons x xs)
  then show ?case by (auto split: prod.splits sum.splits)
qed

lemma insert_loop_unknown_vote:
  assumes "bid \<in> set (BlockVotes b)" "blocks s bid = None" "bid \<notin> Id ` set pre"
  shows "fst (foldM (insertRound lo i) (pre @ b # rest) acc s) = Inl UnknownBlock"
  using assms
proof (induction pre arbitrary: acc s)
  case Nil
  have "insertRound lo i b acc s = (Inl UnknownBlock, s)"
    using processBlock_unknown [OF Nil.prems(1,2), of lo] by (simp add: insertRound_def monad_defs)
  then show ?case by simp
next
  case (Cons x pre)
  from insertRound_outcome [of lo i x acc s] show ?case
  proof
    assume "insertRound lo i x acc s = (Inl UnknownBlock, s)"
    then show ?thesis by simp
  next
    assume "\<exists>acc'. fst (insertRound lo i x acc s) = Inr acc' \<and>
      (\<forall>bid. bid \<noteq> Id x \<longrightarrow> blocks (snd (insertRound lo i x acc s)) bid = blocks s bid)"
    then obtain acc' s1 where st: "insertRound lo i x acc s = (Inr acc', s1)"
      and fr: "\<forall>bid. bid \<noteq> Id x \<longrightarrow> blocks s1 bid = blocks s bid"
      by (cases "insertRound lo i x acc s") auto
    have "bid \<noteq> Id x" using Cons.prems(3) by auto
    then have "blocks s1 bid = None" using fr Cons.prems(2) by simp
    moreover have "bid \<notin> Id ` set pre" using Cons.prems(3) by auto
    ultimately have "fst (foldM (insertRound lo i) (pre @ b # rest) acc' s1) = Inl UnknownBlock"
      using Cons.IH [OF Cons.prems(1)] by blast
    then show ?thesis using st by simp
  qed
qed


text \<open>
  C4, amended. Whenever a vote edge of a block passed to \<open>UpdateTables\<close> names an id
  that is neither stored nor the id of a block earlier in the same call, the call panics
  with "unknown block!", for every layer. The engine state is as it was before the call
  when that block is the first of the call; when the blocks before it have known vote
  edges only, every one of them is stored afterwards. A call for layer 0 in which every
  vote edge names a stored block or a block earlier in the call returns 0 with every
  block of the call stored, whatever its view edges name.
\<close>

theorem UpdateTables_vote_edges:
  "(votesKnown (dom (blocks s)) B \<longrightarrow>
      fst (UpdateTables lo po B 0 s) = Inr 0 \<and>
      (\<forall>x \<in> set B. blocks (snd (UpdateTables lo po B 0 s)) (Id x) \<noteq> None)) \<and>
   (\<forall>pre b rest bid.
      B = pre @ b # rest \<and> bid \<in> set (BlockVotes b) \<and> blocks s bid = None \<and> bid \<notin> Id ` set pre \<longrightarrow>
        fst (UpdateTables lo po B i s) = Inl UnknownBlock \<and>
        (pre = [] \<longrightarrow> snd (UpdateTables lo po B i s) = s) \<and>
        (votesKnown (dom (blocks s)) pre \<longrightarrow>
           (\<forall>x \<in> set pre. blocks (snd (UpdateTables lo po B i s)) (Id x) \<noteq> None)))"
proof (intro conjI impI allI ballI)
  assume k: "votesKnown (dom (blocks s)) B"
  obtain nbs s1 where st: "foldM (insertRound lo 0) B [] s = (Inr nbs, s1)"
    and d: "dom (blocks s1) = dom (blocks s) \<union> Id ` set B"
    using insert_loop_known [OF k, of lo 0 "[]"] by (cases "foldM (insertRound lo 0) B [] s") auto
  show "fst (UpdateTables lo po B 0 s) = Inr 0"
    using st by (simp add: UpdateTables_def bnd_def ret_def)
  fix x assume "x \<in> set B"
  then have "Id x \<in> dom (blocks s1)" using d by simp
  moreover have "snd (UpdateTables lo po B 0 s) = s1"
    using st by (simp add: UpdateTables_def bnd_def ret_def)
  ultimately show "blocks (snd (UpdateTables lo po B 0 s)) (Id x) \<noteq> None" by auto
next
  fix pre b rest bid
  assume h: "B = pre @ b # rest \<and> bid \<in> set (BlockVotes b) \<and> blocks s bid = None \<and> bid \<notin> Id ` set pre"
  have "fst (foldM (insertRound lo i) B [] s) = Inl UnknownBlock"
    using insert_loop_unknown_vote [of bid b s pre lo i rest "[]"] h by simp
  then show "fst (UpdateTables lo po B i s) = Inl UnknownBlock"
    by (cases "foldM (insertRound lo i) B [] s") (auto simp: UpdateTables_def bnd_def)
next
  fix pre b rest bid
  assume h: "B = pre @ b # rest \<and> bid \<in> set (BlockVotes b) \<and> blocks s bid = None \<and> bid \<notin> Id ` set pre"
    and e: "pre = []"
  have "insertRound lo i b [] s = (Inl UnknownBlock, s)"
    using processBlock_unknown [of bid b s lo] h by (simp add: insertRound_def monad_defs)
  then show "snd (UpdateTables lo po B i s) = s"
    using h e by (simp add: UpdateTables_def bnd_def)
next
  fix pre b rest bid x
  assume h: "B = pre @ b # rest \<and> bid \<in> set (BlockVotes b) \<and> blocks s bid = None \<and> bid \<notin> Id ` set pre"
    and k: "votesKnown (dom (blocks s)) pre" and x: "x \<in> set pre"
  obtain nbs s1 where st: "foldM (insertRound lo i) pre [] s = (Inr nbs, s1)"
    and d: "dom (blocks s1) = dom (blocks s) \<union> Id ` set pre"
    using insert_loop_known [OF k, of lo i "[]"] by (cases "foldM (insertRound lo i) pre [] s") auto
  have "blocks s1 bid = None" using d h by (auto simp: domIff)
  then have "insertRound lo i b nbs s1 = (Inl UnknownBlock, s1)"
    using processBlock_unknown [of bid b s1 lo] h by (simp add: insertRound_def monad_defs)
  then have "foldM (insertRound lo i) B [] s = (Inl UnknownBlock, s1)"
    using st h by (simp add: foldM_append)
  then have "snd (UpdateTables lo po B i s) = s1"
    by (simp add: UpdateTables_def bnd_def)
  moreover have "Id x \<in> dom (blocks s1)" using d x by simp
  ultimately show "blocks (snd (UpdateTables lo po B i s)) (Id x) \<noteq> None" by auto
qed

theorem UpdateTables_vote_edges_witness:
  "votesKnown (dom (blocks (NewNinjaTortoise 1))) [blockL0, orphanViewer] \<and>
   fst (UpdateTables inOrder inOrder [blockL0, orphanViewer] 0 (NewNinjaTortoise 1)) = Inr 0 \<and>
   blocks (snd (UpdateTables inOrder inOrder [blockL0, orphanViewer] 0 (NewNinjaTortoise 1))) 1 \<noteq> None \<and>
   fst (UpdateTables inOrder inOrder [blockL0, orphanVoter, blockL1] 1 (NewNinjaTortoise 1)) = Inl UnknownBlock \<and>
   blocks (snd (UpdateTables inOrder inOrder [blockL0, orphanVoter, blockL1] 1 (NewNinjaTortoise 1))) 1 \<noteq> None \<and>
   fst (UpdateTables inOrder inOrder [orphanVoter, blockL1] 1 (NewNinjaTortoise 1)) = Inl UnknownBlock \<and>
   snd (UpdateTables inOrder inOrder [orphanVoter, blockL1] 1 (NewNinjaTortoise 1)) = NewNinjaTortoise 1"
proof -
  have k: "votesKnown (dom (blocks (NewNinjaTortoise 1))) [blockL0, orphanViewer]"
    by (simp add: run_defs)
  have k1: "votesKnown (dom (blocks (NewNinjaTortoise 1))) [blockL0]"
    by (simp add: run_defs)
  have u: "7 \<in> set (BlockVotes orphanVoter) \<and> blocks (NewNinjaTortoise 1) 7 = None \<and> 7 \<notin> Id ` set [blockL0]"
    by (simp add: run_defs)
  note a = UpdateTables_vote_edges [of "NewNinjaTortoise 1" "[blockL0, orphanViewer]" inOrder inOrder 0]
  note b = UpdateTables_vote_edges [of "NewNinjaTortoise 1" "[blockL0, orphanVoter, blockL1]" inOrder inOrder 1,
      THEN conjunct2, rule_format, of "[blockL0]" orphanVoter "[blockL1]" 7]
  note c = UpdateTables_vote_edges [of "NewNinjaTortoise 1" "[orphanVoter, blockL1]" inOrder inOrder 1,
      THEN conjunct2, rule_format, of "[]" orphanVoter "[blockL1]" 7]
  show ?thesis using k k1 u a b c by (simp add: blockL0_def orphanViewer_def)
qed

section \<open>The frontier never moves back\<close>

text \<open>
  A predicate on the machine that holds after a computation whenever it held before,
  whether the computation returns or panics.
\<close>

definition keeps :: "(machine \<Rightarrow> bool) \<Rightarrow> 'a M \<Rightarrow> bool" where
  "keeps P m = (\<forall>s. P s \<longrightarrow> P (snd (m s)))"

text \<open>
  Every pattern stored in \<open>tPatSupport[p][j]\<close> is a pattern of layer \<open>j\<close>.
\<close>

definition keyedSupport :: "machine \<Rightarrow> bool" where
  "keyedSupport s = (\<forall>q inner j r. tPatSupport s q = Some inner \<longrightarrow> inner j = Some (Some r) \<longrightarrow> LayerID r = j)"


text \<open>
  \<open>pBase\<close> and \<open>tGood\<close> are the given ones, and \<open>tPatSupport\<close> is keyed by layer.
\<close>

definition stable :: "votingPattern \<Rightarrow> (LayerID \<rightharpoonup> votingPattern) \<Rightarrow> machine \<Rightarrow> bool" where
  "stable pb tg s = (pBase s = pb \<and> tGood s = tg \<and> keyedSupport s)"

named_theorems keeps_intros

lemma keepsI: "(\<And>s. P s \<Longrightarrow> P (snd (m s))) \<Longrightarrow> keeps P m"
  by (simp add: keeps_def)

lemma keepsD: "keeps P m \<Longrightarrow> P s \<Longrightarrow> P (snd (m s))"
  by (simp add: keeps_def)

lemma keeps_ret [keeps_intros]: "keeps P (ret x)"
  by (simp add: keeps_def ret_def)

lemma keeps_raise [keeps_intros]: "keeps P (raise e)"
  by (simp add: keeps_def raise_def)

lemma keeps_gets [keeps_intros]: "keeps P (gets f)"
  by (simp add: keeps_def gets_def)

lemma keeps_deref [keeps_intros]: "keeps P (deref p)"
  by (cases p) (simp_all add: keeps_def deref_def ret_def raise_def)

lemma keeps_modify [keeps_intros]: "(\<And>s. P s \<Longrightarrow> P (f s)) \<Longrightarrow> keeps P (modify f)"
  by (simp add: keeps_def modify_def)

lemma keeps_bnd [keeps_intros]: "keeps P m \<Longrightarrow> (\<And>x. keeps P (f x)) \<Longrightarrow> keeps P (bnd m f)"
  by (auto simp: keeps_def bnd_def split: prod.splits sum.splits)

lemma keeps_forM [keeps_intros]: "(\<And>x. keeps P (f x)) \<Longrightarrow> keeps P (forM xs f)"
proof (rule keepsI)
  fix s assume a: "\<And>x. keeps P (f x)" and "P s"
  then show "P (snd (forM xs f s))"
  proof (induction xs arbitrary: s)
    case Nil
    then show ?case by simp
  next
    case (Cons x xs)
    have p1: "P (snd (f x s))" using Cons.prems keepsD by blast
    show ?case
    proof (cases "f x s")
      case (Pair r s1)
      then show ?thesis using p1 Cons by (cases r) auto
    qed
  qed
qed

lemma keeps_foldM [keeps_intros]: "(\<And>x a. keeps P (f x a)) \<Longrightarrow> keeps P (foldM f xs a0)"
proof (rule keepsI)
  fix s assume a: "\<And>x a. keeps P (f x a)" and "P s"
  then show "P (snd (foldM f xs a0 s))"
  proof (induction xs arbitrary: s a0)
    case Nil
    then show ?case by simp
  next
    case (Cons x xs)
    have p1: "P (snd (f x a0 s))" using Cons.prems keepsD by blast
    show ?case
    proof (cases "f x a0 s")
      case (Pair r s1)
      then show ?thesis using p1 Cons by (cases r) auto
    qed
  qed
qed

lemma keeps_bfsLoop [keeps_intros]:
  assumes "\<And>b l. keeps P (foo b l)"
  shows "keeps P (bfsLoop layer foo stack seen lc loc)"
proof (rule keepsI)
  fix s assume "P s"
  then show "P (snd (bfsLoop layer foo stack seen lc loc s))"
    using assms
  proof (induction layer foo stack seen lc loc s rule: bfsLoop.induct)
    case (1 layer foo seen lc loc s)
    then show ?case by simp
  next
    case (2 layer foo a stack seen lc loc s)
    show ?case
    proof (cases "blocks s a")
      case None
      then show ?thesis using "2.prems"(1) by simp
    next
      case (Some block)
      have p1: "P (snd (foo block loc s))" using "2.prems" keepsD by blast
      show ?thesis
      proof (cases "foo block loc s")
        case (Pair r s1)
        show ?thesis
        proof (cases r)
          case (Inl e)
          then show ?thesis using Some Pair p1 by simp
        next
          case (Inr loc')
          have "P s1" using p1 Pair by simp
          then have "P (snd (bfsLoop layer foo
                 (fst (pushChildren (childrenOf layer block) stack seen))
                 (snd (pushChildren (childrenOf layer block) stack seen))
                 (lc(Layer block := lc (Layer block) + 1)) loc' s1))"
            using "2.IH" [OF Some Pair [symmetric] Inr] "2.prems"(2) by blast
          then show ?thesis using Some Pair Inr by simp
        qed
      qed
    qed
  qed
qed

lemma keeps_forBlockInView [keeps_intros]:
  "(\<And>b l. keeps P (foo b l)) \<Longrightarrow> keeps P (forBlockInView blks layer foo loc)"
  unfolding forBlockInView_def by (rule keeps_bfsLoop)

lemma keeps_if [keeps_intros]: "keeps P a \<Longrightarrow> keeps P b \<Longrightarrow> keeps P (if c then a else b)"
  by simp

lemma keeps_case_option [keeps_intros]:
  "keeps P a \<Longrightarrow> (\<And>y. keeps P (b y)) \<Longrightarrow> keeps P (case x of None \<Rightarrow> a | Some y \<Rightarrow> b y)"
  by (cases x) simp_all

lemma keeps_case_sum [keeps_intros]:
  "(\<And>y. keeps P (a y)) \<Longrightarrow> (\<And>y. keeps P (b y)) \<Longrightarrow> keeps P (case x of Inl y \<Rightarrow> a y | Inr y \<Rightarrow> b y)"
  by (cases x) simp_all

lemma keeps_case_prod [keeps_intros]:
  "(\<And>a b. keeps P (f a b)) \<Longrightarrow> keeps P (case x of (a, b) \<Rightarrow> f a b)"
  by (cases x) simp

lemma keeps_Let [keeps_intros]: "keeps P (f x) \<Longrightarrow> keeps P (Let x f)"
  by simp

lemma stable_vecs:
  "stable pb tg (s\<lparr>vecs := v\<rparr>) = stable pb tg s"
  "stable pb tg (s\<lparr>nextv := n\<rparr>) = stable pb tg s"
  "stable pb tg (s\<lparr>ranges := k\<rparr>) = stable pb tg s"
  "stable pb tg (s\<lparr>tTally := t\<rparr>) = stable pb tg s"
  "stable pb tg (s\<lparr>tVote := t'\<rparr>) = stable pb tg s"
  "stable pb tg (s\<lparr>tSupport := su\<rparr>) = stable pb tg s"
  "stable pb tg (s\<lparr>tExplicit := ex\<rparr>) = stable pb tg s"
  "stable pb tg (s\<lparr>tCorrect := co\<rparr>) = stable pb tg s"
  "stable pb tg (s\<lparr>tPattern := pa\<rparr>) = stable pb tg s"
  "stable pb tg (s\<lparr>tEffective := ef\<rparr>) = stable pb tg s"
  "stable pb tg (s\<lparr>tEffectiveToBlocks := eb\<rparr>) = stable pb tg s"
  "stable pb tg (s\<lparr>blocks := bl\<rparr>) = stable pb tg s"
  "stable pb tg (s\<lparr>layerBlocks := lb\<rparr>) = stable pb tg s"
  "stable pb tg (s\<lparr>tComplete := tc\<rparr>) = stable pb tg s"
  by (simp_all add: stable_def keyedSupport_def)

lemma keeps_newVec [keeps_intros]: "keeps (stable pb tg) (newVec v)"
  by (simp add: stable_vecs keeps_def newVec_def)

lemma keeps_Add [keeps_intros]: "keeps (stable pb tg) (Add a v)"
  by (simp add: stable_vecs keeps_def Add_def newVec_def split: option.splits)

lemma keeps_Negate [keeps_intros]: "keeps (stable pb tg) (Negate a)"
  by (simp add: stable_vecs keeps_def Negate_def newVec_def split: option.splits)

lemma keeps_Multiplay [keeps_intros]: "keeps (stable pb tg) (Multiplay a x)"
  by (simp add: stable_vecs keeps_def Multiplay_def split: option.splits)

lemma keeps_rangeOrder [keeps_intros]: "keeps (stable pb tg) (rangeOrder order keys)"
  by (simp add: stable_vecs keeps_def rangeOrder_def)

lemma keeps_assignTally [keeps_intros]: "keeps (stable pb tg) (assignTally p b v)"
  by (simp add: stable_vecs keeps_def assignTally_def split: option.splits)

lemma keeps_assignVote [keeps_intros]: "keeps (stable pb tg) (assignVote p b v)"
  by (simp add: stable_vecs keeps_def assignVote_def split: option.splits)

lemma keeps_incSupport [keeps_intros]: "keeps (stable pb tg) (incSupport p)"
  by (simp add: stable_vecs keeps_def incSupport_def modify_def)

lemma keeps_layersUpTo [keeps_intros]: "keeps P (layersUpTo a b)"
  by (simp add: stable_vecs keeps_def layersUpTo_def raise_def ret_def)

lemma keeps_patternRound [keeps_intros]: "keeps (stable pb tg) (patternRound pats l acc)"
  unfolding patternRound_def by (intro keeps_intros) (simp_all add: stable_vecs)

lemma keeps_processBlock [keeps_intros]: "keeps (stable pb tg) (processBlock lo b)"
  unfolding processBlock_def by (intro keeps_intros) (simp_all add: stable_vecs)



lemma keeps_seedTally [keeps_intros]: "keeps (stable pb tg) (seedTally p)"
  unfolding seedTally_def by (intro keeps_intros) (simp_all add: stable_vecs split: option.splits)

lemma keeps_updateCorrectionVectors [keeps_intros]: "keeps (stable pb tg) (updateCorrectionVectors p)"
  unfolding updateCorrectionVectors_def by (intro keeps_intros) (simp_all add: stable_vecs)

lemma keeps_tallyVisitor [keeps_intros]: "keeps (stable pb tg) (tallyVisitor g b loc)"
  unfolding tallyVisitor_def by (intro keeps_intros)

lemma keeps_updatePatternTally [keeps_intros]: "keeps (stable pb tg) (updatePatternTally pa g p)"
  unfolding updatePatternTally_def by (intro keeps_intros)

lemma keeps_addPatternVote [keeps_intros]: "keeps (stable pb tg) (addPatternVote p b u)"
  unfolding addPatternVote_def by (intro keeps_intros) (simp_all add: stable_vecs)

lemma keeps_sumNodesInView [keeps_intros]: "keeps (stable pb tg) (sumNodesInView lc i p)"
  unfolding sumNodesInView_def by (intro keeps_intros)

lemma keeps_globalOpinion [keeps_intros]: "keeps (stable pb tg) (globalOpinion p x)"
  unfolding globalOpinion_def by (intro keeps_intros)

lemma keeps_opinionRound [keeps_intros]: "keeps (stable pb tg) (opinionRound p lc i bid loc)"
  unfolding opinionRound_def by (intro keeps_intros) (simp_all add: stable_vecs)

lemma keeps_layerRound [keeps_intros]: "keeps (stable pb tg) (layerRound p lc i flag)"
  unfolding layerRound_def
  by (intro keeps_intros) (auto simp: stable_def keyedSupport_def split: option.splits if_splits)








































end
